theory Spec2Isabelle
  imports Main "HOL-Library.Word"
begin

section \<open>JavaScript values\<close>

text \<open>
  A JavaScript string is a sequence of UTF-16 code units. The markers of the chart
  pattern and the Korean texts of the user interface lie outside ASCII, so strings are
  modelled as lists of 16-bit words and not as HOL strings.
\<close>

type_synonym jschar = "16 word"
type_synonym jsstring = "jschar list"

definition utf16 :: "string \<Rightarrow> jsstring" where
  \<comment> \<open>an ASCII literal of the source, as code units\<close>
  "utf16 s = map (\<lambda>c. of_nat (of_char c)) s"

text \<open>
  The payload of a stream event is whatever \<open>JSON.parse\<close> produced, and the source
  inspects it with \<open>typeof\<close> and truthiness tests; \<open>JUndef\<close> is an absent field.
  Numbers are restricted to integers of magnitude below \<open>10^21\<close> (JavaScript prints
  larger ones in exponent form). The entries of a \<open>JObj\<close> are the properties of an
  object, so their keys are distinct, and none of them is \<open>toString\<close> or \<open>valueOf\<close> (the
  conversion to a string would call it, or throw when it cannot be called).
\<close>

datatype json =
    JUndef
  | JNull
  | JBool bool
  | JNum int
  | JStr jsstring
  | JArr "json list"
  | JObj "(jsstring \<times> json) list"

datatype jstype = TUndefined | TObject | TBoolean | TNumber | TString

fun typeof :: "json \<Rightarrow> jstype" where
  "typeof JUndef = TUndefined"
| "typeof JNull = TObject"
| "typeof (JBool b) = TBoolean"
| "typeof (JNum n) = TNumber"
| "typeof (JStr s) = TString"
| "typeof (JArr xs) = TObject"
| "typeof (JObj kvs) = TObject"

fun truthy :: "json \<Rightarrow> bool" where
  "truthy JUndef = False"
| "truthy JNull = False"
| "truthy (JBool b) = b"
| "truthy (JNum n) = (n \<noteq> 0)"
| "truthy (JStr s) = (s \<noteq> [])"
| "truthy (JArr xs) = True"
| "truthy (JObj kvs) = True"

fun get_prop :: "json \<Rightarrow> jsstring \<Rightarrow> json" where
  \<comment> \<open>\<open>v[k]\<close> and \<open>v?.k\<close> for the keys the source reads (\<open>stage\<close>, \<open>message\<close>,
      \<open>iteration\<close>, \<open>id_to_iframe\<close> and chart keys): none of them is an index or a
      built-in property of a string, an array or a number, so only a plain object
      can hold one\<close>
  "get_prop (JObj kvs) k = (case map_of kvs k of Some v \<Rightarrow> v | None \<Rightarrow> JUndef)"
| "get_prop v k = JUndef"

fun digits :: "nat \<Rightarrow> jsstring" where
  "digits n = (if n < 10 then [of_nat (48 + n)] else digits (n div 10) @ [of_nat (48 + n mod 10)])"

declare digits.simps [simp del]

definition int_to_string :: "int \<Rightarrow> jsstring" where
  "int_to_string i = (if i < 0 then utf16 ''-'' @ digits (nat (- i)) else digits (nat i))"

fun join_comma :: "jsstring list \<Rightarrow> jsstring" where
  "join_comma [] = []"
| "join_comma [s] = s"
| "join_comma (s # t # r) = s @ utf16 '','' @ join_comma (t # r)"

fun to_string :: "json \<Rightarrow> jsstring" where
  \<comment> \<open>the conversion a template literal applies to an interpolated value, for the
      values described above; on strings, the payloads of the declared types, it is
      the identity\<close>
  "to_string JUndef = utf16 ''undefined''"
| "to_string JNull = utf16 ''null''"
| "to_string (JBool b) = (if b then utf16 ''true'' else utf16 ''false'')"
| "to_string (JNum n) = int_to_string n"
| "to_string (JStr s) = s"
| "to_string (JArr xs) =
     join_comma (map (\<lambda>x. if x = JUndef \<or> x = JNull then [] else to_string x) xs)"
| "to_string (JObj kvs) = utf16 ''[object Object]''"

section \<open>Content Transformer: \<open>MarkdownRenderer.processContent\<close>\<close>

definition LBRACKET :: jschar where "LBRACKET = 0x3010"
definition RBRACKET :: jschar where "RBRACKET = 0x3011"
definition DAGGER :: jschar where "DAGGER = 0x2020"
definition NEWLINE :: jschar where "NEWLINE = 0x0A"

definition is_digit :: "jschar \<Rightarrow> bool" where
  \<comment> \<open>\<open>\d\<close> of a regular expression without the \<open>u\<close> flag: an ASCII digit\<close>
  "is_digit c = (0x30 \<le> c \<and> c \<le> 0x39)"

definition key_suffix :: jsstring where
  "key_suffix = DAGGER # utf16 ''chart''"

text \<open>
  One attempt of the pattern \<open>LBRACKET (\d+ DAGGER chart) RBRACKET\<close> at the head of a
  string. The dagger is no digit, so the only way \<open>\d+\<close> can be followed by it is to
  take the whole run of digits: backtracking to a shorter run never succeeds. The result
  is the captured key and the text after the match.
\<close>

fun match_at :: "jsstring \<Rightarrow> (jsstring \<times> jsstring) option" where
  "match_at [] = None"
| "match_at (c # r) =
     (if c = LBRACKET \<and> takeWhile is_digit r \<noteq> []
         \<and> take 7 (dropWhile is_digit r) = key_suffix @ [RBRACKET]
      then Some (takeWhile is_digit r @ key_suffix, drop 7 (dropWhile is_digit r))
      else None)"

definition placeholder :: "jsstring \<Rightarrow> jsstring" where
  \<comment> \<open>the matched text, given the captured key\<close>
  "placeholder key = LBRACKET # key @ [RBRACKET]"

text \<open>
  \<open>text.replace(chartPattern, callback)\<close> with the global flag: the text is scanned
  from the left, every match is replaced by what the callback returns for the matched
  text and the key, and scanning goes on behind the match. What the callback returns is
  not scanned.
\<close>

function replace_chart :: "(jsstring \<Rightarrow> jsstring \<Rightarrow> jsstring) \<Rightarrow> jsstring \<Rightarrow> jsstring" where
  "replace_chart cb [] = []"
| "replace_chart cb (c # r) =
     (case match_at (c # r) of
        None \<Rightarrow> c # replace_chart cb r
      | Some (key, rest) \<Rightarrow> cb (placeholder key) key @ replace_chart cb rest)"
  by pat_completeness auto
termination
proof (relation "measure (\<lambda>(cb, s). length s)")
  fix cb :: "jsstring \<Rightarrow> jsstring \<Rightarrow> jsstring" and c r x2 key rest
  assume "match_at (c # r) = Some x2" and "(key, rest) = x2"
  then have "rest = drop 7 (dropWhile is_digit r)"
    by (auto split: if_splits)
  moreover have "length (dropWhile is_digit r) \<le> length r"
    by (rule length_dropWhile_le)
  ultimately show "((cb, rest), (cb, c # r)) \<in> measure (\<lambda>(cb, s). length s)"
    by simp
qed simp_all

definition chart_callback :: "json \<Rightarrow> jsstring \<Rightarrow> jsstring \<Rightarrow> jsstring" where
  \<comment> \<open>the arrow function given to \<open>replace\<close>; \<open>table\<close> is \<open>toolState.id_to_iframe\<close>\<close>
  "chart_callback table mtch key =
     (let iframeHtml = get_prop table key
      in if truthy iframeHtml
         then [NEWLINE, NEWLINE] @ to_string iframeHtml @ [NEWLINE, NEWLINE]
         else mtch)"

definition processContent :: "json \<Rightarrow> jsstring \<Rightarrow> jsstring" where
  "processContent toolState text =
     (if \<not> truthy (get_prop toolState (utf16 ''id_to_iframe'')) then text
      else replace_chart (chart_callback (get_prop toolState (utf16 ''id_to_iframe''))) text)"

fun has_placeholder :: "jsstring \<Rightarrow> bool" where
  \<comment> \<open>some position of the text starts a match of the chart pattern\<close>
  "has_placeholder [] = False"
| "has_placeholder (c # r) = (match_at (c # r) \<noteq> None \<or> has_placeholder r)"

definition tail_char :: "jschar \<Rightarrow> bool" where
  \<comment> \<open>the code units that can follow the opening bracket inside a match\<close>
  "tail_char c = (is_digit c \<or> c \<in> set (key_suffix @ [RBRACKET]))"

section \<open>Client Session Controller: the \<open>Index\<close> page\<close>

subsection \<open>Data\<close>

text \<open>
  The types of the chat module and of the sidebar, as the page uses them. The fields \<open>id\<close>, \<open>text\<close> and
  \<open>timestamp\<close> of the source carry the name of their type as a prefix; an optional field
  is an \<open>option\<close>; a \<open>Date\<close> is its number of milliseconds.
\<close>

record ReasoningStep =
  step_id :: jsstring
  stage :: jsstring
  message :: jsstring
  iteration :: "int option"
  step_timestamp :: nat

record Message =
  msg_id :: jsstring
  msg_text :: jsstring
  isUser :: bool
  msg_timestamp :: nat
  reasoningSteps :: "ReasoningStep list option"
  isThinking :: "bool option"

record Conversation =
  conv_id :: jsstring
  title :: jsstring
  lastMessage :: "jsstring option"
  conv_timestamp :: nat

record Toast =
  toast_title :: jsstring
  description :: json
  variant :: "jsstring option"

text \<open>
  An \<open>AbortController\<close> made by a submit, together with the stream it guards:
  \<open>aborted\<close> is \<open>controller.signal.aborted\<close>, and \<open>finished\<close> records that the handler
  reading the stream has left its \<open>try\<close> statement (bookkeeping of the model, so that
  the streams still being read can be counted).
\<close>

record stream =
  aborted :: bool
  finished :: bool

text \<open>
  The state of the page: the six \<open>useState\<close> cells, the \<open>useRef\<close> cell (the index of
  a controller in \<open>streams\<close>, or \<open>None\<close> for \<open>null\<close>), the controllers made so far,
  and the toasts shown so far.
\<close>

record state =
  conversations :: "Conversation list"
  currentConversationId :: "jsstring option"
  messages :: "Message list"
  isLoading :: bool
  isLoadingHistory :: bool
  toolState :: json
  abortControllerRef :: "nat option"
  streams :: "stream list"
  toasts :: "Toast list"

definition initial_state :: state where
  "initial_state =
     \<lparr>conversations = [], currentConversationId = None, messages = [], isLoading = False,
      isLoadingHistory = False, toolState = JObj [], abortControllerRef = None,
      streams = [], toasts = []\<rparr>"

record stream_event =
  event :: jsstring
  data :: json

text \<open>What the environment supplies while one event is handled.\<close>

record tick =
  now :: nat \<comment> \<open>\<open>Date.now()\<close>\<close>
  date :: nat \<comment> \<open>\<open>new Date()\<close>\<close>
  random :: jsstring \<comment> \<open>\<open>Math.random().toString(36).slice(2, 8)\<close>\<close>

text \<open>
  A thrown value: a \<open>DOMException\<close> named AbortError, any other \<open>Error\<close> (both with
  their message), or a value that is no \<open>Error\<close>.
\<close>

datatype js_error = AbortError jsstring | Error jsstring | NonError

datatype stream_item = Yield stream_event tick | Throw js_error

datatype flow = Continue | Break

text \<open>The variables one call of \<open>handleSendMessage\<close> closes over.\<close>

record request =
  chatId :: jsstring
  aiMessageId :: jsstring
  signal :: nat
  question :: jsstring

text \<open>The clock readings of the synchronous part of \<open>handleSendMessage\<close>, in source order.\<close>

record submit_clock =
  now_chat :: nat
  date_conv :: nat
  now_user :: nat
  date_user :: nat
  date_list :: nat
  now_ai :: nat
  date_ai :: nat

subsection \<open>Texts of the user interface\<close>

definition ERROR_PREFIX :: jsstring where
  "ERROR_PREFIX = [0xC624, 0xB958, 0x3A, 0x20]"

definition UNKNOWN_ERROR :: jsstring where
  "UNKNOWN_ERROR = [0xC54C, 0x20, 0xC218, 0x20, 0xC5C6, 0xB294, 0x20, 0xC624, 0xB958,
     0xAC00, 0x20, 0xBC1C, 0xC0DD, 0xD588, 0xC2B5, 0xB2C8, 0xB2E4, 0x2E]"

definition CONNECTION_ERROR :: jsstring where
  "CONNECTION_ERROR = [0xC5F0, 0xACB0, 0x20, 0xC624, 0xB958, 0xAC00, 0x20, 0xBC1C, 0xC0DD,
     0xD588, 0xC2B5, 0xB2C8, 0xB2E4, 0x2E]"

definition ERROR_TITLE :: jsstring where
  "ERROR_TITLE = [0xC624, 0xB958, 0x20, 0xBC1C, 0xC0DD]"

definition CONNECTION_TITLE :: jsstring where
  "CONNECTION_TITLE = [0xC5F0, 0xACB0, 0x20, 0xC624, 0xB958]"

definition HISTORY_TITLE :: jsstring where
  "HISTORY_TITLE = [0xD788, 0xC2A4, 0xD1A0, 0xB9AC, 0x20, 0xB85C, 0xB4DC, 0x20, 0xC2E4, 0xD328]"

definition HISTORY_ERROR :: jsstring where
  "HISTORY_ERROR = [0xB300, 0xD654, 0x20, 0xB0B4, 0xC6A9, 0xC744, 0x20, 0xBD88, 0xB7EC,
     0xC62C, 0x20, 0xC218, 0x20, 0xC5C6, 0xC2B5, 0xB2C8, 0xB2E4, 0x2E]"

definition destructive :: "jsstring option" where
  "destructive = Some (utf16 ''destructive'')"

subsection \<open>Cancelling\<close>

definition abort :: "nat \<Rightarrow> stream list \<Rightarrow> stream list" where
  \<comment> \<open>\<open>controller.abort()\<close>\<close>
  "abort c ss = (if c < length ss then ss [c := (ss ! c)\<lparr>aborted := True\<rparr>] else ss)"

definition cancelOngoingStream :: "state \<Rightarrow> state" where
  "cancelOngoingStream st =
     (case abortControllerRef st of
        Some c \<Rightarrow> st\<lparr>streams := abort c (streams st), abortControllerRef := None\<rparr>
      | None \<Rightarrow> st)\<lparr>isLoading := False\<rparr>"

definition in_flight :: "state \<Rightarrow> nat list" where
  \<comment> \<open>the streams that are still being read and whose transport has not been aborted\<close>
  "in_flight st =
     filter (\<lambda>i. \<not> aborted (streams st ! i) \<and> \<not> finished (streams st ! i))
       [0 ..< length (streams st)]"


subsection \<open>\<open>handleSendMessage\<close>: the synchronous part\<close>

definition set_text :: "jsstring \<Rightarrow> jsstring \<Rightarrow> Message list \<Rightarrow> Message list" where
  "set_text aid txt prev = map (\<lambda>msg. if msg_id msg = aid then msg\<lparr>msg_text := txt\<rparr> else msg) prev"

definition clear_thinking :: "jsstring \<Rightarrow> Message list \<Rightarrow> Message list" where
  "clear_thinking aid prev =
     map (\<lambda>msg. if msg_id msg = aid then msg\<lparr>isThinking := Some False\<rparr> else msg) prev"

definition touch_conversation ::
  "jsstring \<Rightarrow> jsstring \<Rightarrow> nat \<Rightarrow> Conversation list \<Rightarrow> Conversation list" where
  "touch_conversation cid preview t prev =
     map (\<lambda>conv. if conv_id conv = cid
                  then conv\<lparr>lastMessage := Some preview, conv_timestamp := t\<rparr> else conv) prev"

text \<open>
  From the entry of \<open>handleSendMessage\<close> to the creation of the stream. The state
  setters with an updater function are applied in the order of the calls. Setting
  \<open>currentConversationId\<close> here also schedules the history effect (\<open>history_effect\<close>
  below), which runs as a step of its own.
\<close>

definition submit :: "submit_clock \<Rightarrow> state \<Rightarrow> jsstring \<Rightarrow> state \<times> request" where
  "submit clk st0 txt =
     (let st1 = (case abortControllerRef st0 of
                   Some c \<Rightarrow> st0\<lparr>streams := abort c (streams st0)\<rparr>
                 | None \<Rightarrow> st0);
          fresh = (case currentConversationId st1 of None \<Rightarrow> True | Some i \<Rightarrow> i = []);
          cid = (case currentConversationId st1 of
                   None \<Rightarrow> digits (now_chat clk)
                 | Some i \<Rightarrow> if i = [] then digits (now_chat clk) else i);
          newConversation =
            \<lparr>conv_id = cid,
             title = take 30 txt @ (if length txt > 30 then utf16 ''...'' else []),
             lastMessage = Some (take 50 txt),
             conv_timestamp = date_conv clk\<rparr>;
          st2 = (if fresh
                 then st1\<lparr>conversations := newConversation # conversations st1,
                          currentConversationId := Some cid\<rparr>
                 else st1);
          userMessage =
            \<lparr>msg_id = digits (now_user clk), msg_text = txt, isUser = True,
             msg_timestamp = date_user clk, reasoningSteps = None, isThinking = None\<rparr>;
          st3 = st2\<lparr>messages := messages st2 @ [userMessage], isLoading := True\<rparr>;
          st4 = st3\<lparr>conversations :=
                      touch_conversation cid (take 50 txt) (date_list clk) (conversations st3)\<rparr>;
          aid = digits (now_ai clk + 1);
          aiMessage =
            \<lparr>msg_id = aid, msg_text = [], isUser = False, msg_timestamp = date_ai clk,
             reasoningSteps = Some [], isThinking = Some True\<rparr>;
          st5 = st4\<lparr>messages := messages st4 @ [aiMessage]\<rparr>;
          controller = length (streams st5);
          st6 = st5\<lparr>streams := streams st5 @ [\<lparr>aborted = False, finished = False\<rparr>],
                   abortControllerRef := Some controller\<rparr>
      in (st6, \<lparr>chatId = cid, aiMessageId = aid, signal = controller, question = txt\<rparr>))"

subsection \<open>The event loop\<close>

definition is_high_surrogate :: "jschar \<Rightarrow> bool" where
  "is_high_surrogate c = (0xD800 \<le> c \<and> c \<le> 0xDBFF)"

definition is_low_surrogate :: "jschar \<Rightarrow> bool" where
  "is_low_surrogate c = (0xDC00 \<le> c \<and> c \<le> 0xDFFF)"

fun code_points :: "jsstring \<Rightarrow> jsstring list" where
  \<comment> \<open>what \<open>for (const char of chunk)\<close> iterates over: a surrogate pair is one step\<close>
  "code_points [] = []"
| "code_points [c] = [[c]]"
| "code_points (c # d # r) =
     (if is_high_surrogate c \<and> is_low_surrogate d then [c, d] # code_points r
      else [c] # code_points (d # r))"

fun token_loop :: "jsstring \<Rightarrow> state \<times> jsstring \<Rightarrow> jsstring list \<Rightarrow> state \<times> jsstring" where
  "token_loop aid (st, accumulatedText) [] = (st, accumulatedText)"
| "token_loop aid (st, accumulatedText) (char # chars) =
     token_loop aid
       (st\<lparr>messages := set_text aid (accumulatedText @ char) (messages st)\<rparr>,
        accumulatedText @ char)
       chars"

definition string_or :: "json \<Rightarrow> jsstring \<Rightarrow> jsstring" where
  \<comment> \<open>\<open>typeof v === "string" ? v : d\<close>\<close>
  "string_or v d = (case v of JStr s \<Rightarrow> s | _ \<Rightarrow> d)"

definition reasoning_step :: "(json \<Rightarrow> jsstring) \<Rightarrow> jsstring \<Rightarrow> json \<Rightarrow> tick \<Rightarrow> ReasoningStep" where
  "reasoning_step JSON_stringify aid d tk =
     (let payload = (if d = JUndef \<or> d = JNull then JObj [] else d)
      in \<lparr>step_id = aid @ utf16 ''-reason-'' @ digits (now tk) @ utf16 ''-'' @ random tk,
          stage = string_or (get_prop payload (utf16 ''stage'')) (utf16 ''info''),
          message = string_or payload
                      (string_or (get_prop payload (utf16 ''message'')) (JSON_stringify payload)),
          iteration = (if typeof payload = TObject \<and> payload \<noteq> JNull
                       then (case get_prop payload (utf16 ''iteration'') of
                               JNum n \<Rightarrow> Some n | _ \<Rightarrow> None)
                       else None),
          step_timestamp = date tk\<rparr>)"

definition add_step :: "jsstring \<Rightarrow> ReasoningStep \<Rightarrow> Message list \<Rightarrow> Message list" where
  "add_step aid step prev =
     map (\<lambda>msg. if msg_id msg = aid
                 then msg\<lparr>reasoningSteps :=
                        Some ((case reasoningSteps msg of None \<Rightarrow> [] | Some steps \<Rightarrow> steps) @ [step])\<rparr>
                 else msg) prev"

text \<open>
  One pass through the body of the \<open>for await\<close> loop. \<open>JSON.stringify\<close> is a built-in
  and is taken as a parameter. The \<open>metadata\<close> branch only writes to the console.
\<close>

definition on_event ::
  "(json \<Rightarrow> jsstring) \<Rightarrow> request \<Rightarrow> state \<times> jsstring \<Rightarrow> stream_event \<Rightarrow> tick
     \<Rightarrow> (state \<times> jsstring) \<times> flow" where
  "on_event JSON_stringify rq sa ev tk =
     (let st = fst sa; accumulatedText = snd sa; aid = aiMessageId rq
      in if event ev = utf16 ''token'' then
           (token_loop aid sa (code_points (string_or (data ev) [])), Continue)
         else if event ev = utf16 ''reasoning'' then
           ((st\<lparr>messages :=
                  add_step aid (reasoning_step JSON_stringify aid (data ev) tk) (messages st)\<rparr>,
             accumulatedText), Continue)
         else if event ev = utf16 ''tool_state'' then
           (if truthy (data ev) \<and> typeof (data ev) = TObject
            then ((st\<lparr>toolState := data ev\<rparr>, accumulatedText), Continue)
            else (sa, Continue))
         else if event ev = utf16 ''metadata'' then (sa, Continue)
         else if event ev = utf16 ''error'' then
           (let errorText = (if truthy (data ev) then data ev else JStr UNKNOWN_ERROR)
            in ((st\<lparr>messages :=
                       clear_thinking aid
                         (set_text aid (ERROR_PREFIX @ to_string errorText) (messages st)),
                     toasts := toasts st @
                       [\<lparr>toast_title = ERROR_TITLE, description = errorText,
                         variant = destructive\<rparr>]\<rparr>,
                 accumulatedText), Break))
         else if event ev = utf16 ''result'' then
           ((st\<lparr>conversations :=
                   touch_conversation (chatId rq) (take 80 accumulatedText) (date tk)
                     (conversations st),
                 messages := clear_thinking aid (messages st)\<rparr>,
             accumulatedText), Break)
         else (sa, Continue))"

text \<open>
  The loop over the stream. The stream is the list of what the generator does next:
  it yields an event or throws; the end of the list is the end of the generator. The
  loop leaves at a \<open>break\<close>, at a throw or at the end, and reads nothing after that.
\<close>

fun for_await ::
  "(json \<Rightarrow> jsstring) \<Rightarrow> request \<Rightarrow> state \<times> jsstring \<Rightarrow> stream_item list
     \<Rightarrow> (state \<times> jsstring) \<times> js_error option" where
  "for_await S rq sa [] = (sa, None)"
| "for_await S rq sa (Throw e # rest) = (sa, Some e)"
| "for_await S rq sa (Yield ev tk # rest) =
     (case on_event S rq sa ev tk of
        (sa', Break) \<Rightarrow> (sa', None)
      | (sa', Continue) \<Rightarrow> for_await S rq sa' rest)"

definition catch_block :: "request \<Rightarrow> state \<Rightarrow> js_error \<Rightarrow> state" where
  "catch_block rq st e =
     (case e of
        AbortError m \<Rightarrow> st\<lparr>messages := clear_thinking (aiMessageId rq) (messages st)\<rparr>
      | _ \<Rightarrow>
        (let errorMessage = (case e of Error m \<Rightarrow> m | _ \<Rightarrow> CONNECTION_ERROR)
         in st\<lparr>messages :=
                  clear_thinking (aiMessageId rq)
                    (set_text (aiMessageId rq) (ERROR_PREFIX @ errorMessage) (messages st)),
                toasts := toasts st @
                  [\<lparr>toast_title = CONNECTION_TITLE, description = JStr errorMessage,
                    variant = destructive\<rparr>]\<rparr>))"

definition finish :: "nat \<Rightarrow> stream list \<Rightarrow> stream list" where
  "finish c ss = (if c < length ss then ss [c := (ss ! c)\<lparr>finished := True\<rparr>] else ss)"

definition finally_block :: "request \<Rightarrow> state \<Rightarrow> state" where
  "finally_block rq st =
     st\<lparr>isLoading := False, abortControllerRef := None,
        messages := clear_thinking (aiMessageId rq) (messages st),
        streams := finish (signal rq) (streams st)\<rparr>"

definition resume ::
  "(json \<Rightarrow> jsstring) \<Rightarrow> request \<Rightarrow> state \<times> jsstring \<Rightarrow> stream_item list \<Rightarrow> state" where
  \<comment> \<open>the handler from its place in the loop to its end\<close>
  "resume S rq sa items =
     (case for_await S rq sa items of
        ((st, accumulatedText), None) \<Rightarrow> finally_block rq st
      | ((st, accumulatedText), Some e) \<Rightarrow> finally_block rq (catch_block rq st e))"

subsection \<open>Switching the conversation\<close>

text \<open>
  \<open>getChatHistory\<close> lives in the API module; it enters as the outcome of the call: a
  response of the shape \<open>{ messages: [{ role, content }, ...] }\<close>, which carries the
  message array when \<open>response.messages\<close> is truthy and an array, or a rejection. A
  response that cannot be read (a TypeError inside the \<open>try\<close> block) is a rejection
  too. \<open>isLoadingHistory\<close> is set on entry and cleared in the \<open>finally\<close> block; the
  model gives the state at the end of the call.
\<close>

record history_message =
  role :: jsstring
  content :: "jsstring option"

datatype history_outcome = Response "history_message list option" | Rejected js_error

definition loaded_message :: "jsstring \<Rightarrow> (nat \<Rightarrow> nat) \<Rightarrow> nat \<times> history_message \<Rightarrow> Message" where
  "loaded_message cid clock im =
     \<lparr>msg_id = cid @ utf16 ''-'' @ digits (fst im),
      msg_text = (case content (snd im) of None \<Rightarrow> [] | Some c \<Rightarrow> c),
      isUser = (role (snd im) = utf16 ''user''),
      msg_timestamp = clock (fst im),
      reasoningSteps = Some [],
      isThinking = Some False\<rparr>"

definition loadChatHistory :: "(nat \<Rightarrow> nat) \<Rightarrow> history_outcome \<Rightarrow> state \<Rightarrow> jsstring \<Rightarrow> state" where
  "loadChatHistory clock outcome st cid =
     (case outcome of
        Response (Some window) \<Rightarrow>
          st\<lparr>messages := map (loaded_message cid clock) (enumerate 0 window),
             isLoadingHistory := False\<rparr>
      | Response None \<Rightarrow> st\<lparr>messages := [], isLoadingHistory := False\<rparr>
      | Rejected e \<Rightarrow>
          st\<lparr>messages := [],
             toasts := toasts st @
               [\<lparr>toast_title = HISTORY_TITLE,
                 description = JStr (case e of AbortError m \<Rightarrow> m | Error m \<Rightarrow> m
                                     | NonError \<Rightarrow> HISTORY_ERROR),
                 variant = destructive\<rparr>],
             isLoadingHistory := False\<rparr>)"

definition handleSelectConversation :: "state \<Rightarrow> jsstring \<Rightarrow> state" where
  "handleSelectConversation st cid = (cancelOngoingStream st)\<lparr>currentConversationId := Some cid\<rparr>"



definition history_effect ::
  "(nat \<Rightarrow> nat) \<Rightarrow> history_outcome \<Rightarrow> jsstring option \<Rightarrow> state \<Rightarrow> state" where
  \<comment> \<open>the effect on \<open>[currentConversationId]\<close>: it runs when the id differs from the one
      of the previous render, and loads when the id is truthy\<close>
  "history_effect clock outcome previous st =
     (case currentConversationId st of
        Some cid \<Rightarrow>
          if currentConversationId st \<noteq> previous \<and> cid \<noteq> []
          then loadChatHistory clock outcome st cid else st
      | None \<Rightarrow> st)"

definition switch_conversation ::
  "(nat \<Rightarrow> nat) \<Rightarrow> history_outcome \<Rightarrow> state \<Rightarrow> jsstring \<Rightarrow> state" where
  "switch_conversation clock outcome st cid =
     history_effect clock outcome (currentConversationId st) (handleSelectConversation st cid)"


subsection \<open>What a stream delivers\<close>


fun non_terminal :: "stream_item \<Rightarrow> bool" where
  \<comment> \<open>an event that is neither \<open>error\<close> nor \<open>result\<close>\<close>
  "non_terminal (Yield ev tk) = (event ev \<noteq> utf16 ''error'' \<and> event ev \<noteq> utf16 ''result'')"
| "non_terminal (Throw e) = False"


subsection \<open>A turn of the page\<close>

text \<open>
  A call of \<open>handleSendMessage\<close> together with the history effect it schedules. When no
  conversation is current, the call sets \<open>currentConversationId\<close>, and the effect on that
  id then reads the history of the new chat and replaces the message list. The read
  settles while the stream is being read or after the call has ended: \<open>k\<close> is the number
  of stream items handled before it settles, and when the call ends within its first
  \<open>k\<close> items the read settles behind the call. When a conversation is current the id
  does not change and the effect does not run.
\<close>

definition send_turn ::
  "(json \<Rightarrow> jsstring) \<Rightarrow> (nat \<Rightarrow> nat) \<Rightarrow> history_outcome \<Rightarrow> nat \<Rightarrow> submit_clock \<Rightarrow> state
     \<Rightarrow> jsstring \<Rightarrow> stream_item list \<Rightarrow> state" where
  "send_turn S clock outcome k clk st q items =
     (case submit clk st q of
        (st1, rq) \<Rightarrow>
          if list_all non_terminal (take k items)
          then (case for_await S rq (st1, []) (take k items) of
                  ((st2, accumulatedText), exit) \<Rightarrow>
                    resume S rq
                      (history_effect clock outcome (currentConversationId st) st2,
                       accumulatedText)
                      (drop k items))
          else history_effect clock outcome (currentConversationId st)
                 (resume S rq (st1, []) items))"


subsection \<open>Runs of the page\<close>



section \<open>The Content Transformer as the specification words it\<close>

text \<open>
  The specification describes the transformer over a ToolState mapping from keys to
  rendering fragments: a placeholder whose key is in the mapping is replaced by the
  fragment, any other placeholder stays. \<open>fragments\<close> reads that mapping off the
  \<open>id_to_iframe\<close> object of the tool state.
\<close>

definition spec_transform :: "(jsstring \<rightharpoonup> jsstring) \<Rightarrow> jsstring \<Rightarrow> jsstring" where
  "spec_transform m s =
     replace_chart (\<lambda>mtch key. case m key of Some fragment \<Rightarrow> fragment | None \<Rightarrow> mtch) s"

definition fragments :: "json \<Rightarrow> (jsstring \<rightharpoonup> jsstring)" where
  "fragments ts key =
     (case get_prop (get_prop ts (utf16 ''id_to_iframe'')) key of
        JStr s \<Rightarrow> Some s | _ \<Rightarrow> None)"

section \<open>Example inputs\<close>

definition ex_stringify :: "json \<Rightarrow> jsstring" where
  "ex_stringify v = []"

definition ex_clock :: "nat \<Rightarrow> submit_clock" where
  "ex_clock t = \<lparr>now_chat = t, date_conv = t, now_user = t, date_user = t, date_list = t,
                 now_ai = t, date_ai = t\<rparr>"

definition ex_tick :: tick where
  "ex_tick = \<lparr>now = 1500, date = 1500, random = utf16 ''k3x9qa''\<rparr>"

definition ex_request :: request where
  "ex_request = \<lparr>chatId = utf16 ''chat'', aiMessageId = utf16 ''1001'', signal = 0,
                 question = utf16 ''hello''\<rparr>"

definition ex_table :: json where
  "ex_table = JObj [(utf16 ''id_to_iframe'', JObj [(utf16 ''1'' @ key_suffix, JStr (utf16 ''<iframe/>''))])]"

definition ex_state :: state where
  "ex_state =
     \<lparr>conversations =
        [\<lparr>conv_id = utf16 ''chat'', title = utf16 ''hello'', lastMessage = Some (utf16 ''hello''),
          conv_timestamp = 1000\<rparr>,
         \<lparr>conv_id = utf16 ''old'', title = utf16 ''before'', lastMessage = None,
          conv_timestamp = 10\<rparr>],
      currentConversationId = Some (utf16 ''chat''),
      messages =
        [\<lparr>msg_id = utf16 ''1000'', msg_text = utf16 ''hello'', isUser = True,
          msg_timestamp = 1000, reasoningSteps = None, isThinking = None\<rparr>,
         \<lparr>msg_id = utf16 ''1001'', msg_text = utf16 ''Hel'', isUser = False,
          msg_timestamp = 1000, reasoningSteps = Some [], isThinking = Some True\<rparr>],
      isLoading = True, isLoadingHistory = False,
      toolState = ex_table,
      abortControllerRef = Some 0,
      streams = [\<lparr>aborted = False, finished = False\<rparr>],
      toasts = []\<rparr>"

definition ex_stream :: "stream_item list" where
  "ex_stream =
     [Yield \<lparr>event = utf16 ''token'', data = JStr (utf16 ''Hel'')\<rparr> ex_tick,
      Yield \<lparr>event = utf16 ''reasoning'',
             data = JObj [(utf16 ''stage'', JStr (utf16 ''search''))]\<rparr> ex_tick,
      Yield \<lparr>event = utf16 ''token'', data = JStr (utf16 ''lo'')\<rparr> ex_tick]"

definition ex_late :: "stream_item list" where
  "ex_late = [Yield \<lparr>event = utf16 ''token'', data = JStr (utf16 ''!'')\<rparr> ex_tick]"








section \<open>Properties of the Content Transformer\<close>

subsection \<open>The matcher\<close>

lemma pattern_tail: "key_suffix @ [RBRACKET] = [0x2020, 0x63, 0x68, 0x61, 0x72, 0x74, 0x3011]"
  by (simp add: key_suffix_def utf16_def DAGGER_def RBRACKET_def)

lemma length_key_suffix [simp]: "length key_suffix = 6"
  by (simp add: key_suffix_def utf16_def)

lemma key_suffix_no_digit: "takeWhile is_digit (key_suffix @ r) = []"
  by (simp add: key_suffix_def DAGGER_def is_digit_def)

lemma not_tail_LBRACKET: "\<not> tail_char LBRACKET"
  by (simp add: tail_char_def pattern_tail is_digit_def LBRACKET_def)

lemma not_tail_NEWLINE: "\<not> tail_char NEWLINE"
  by (simp add: tail_char_def pattern_tail is_digit_def NEWLINE_def)

lemma NEWLINE_not_LBRACKET: "NEWLINE \<noteq> LBRACKET"
  by (simp add: NEWLINE_def LBRACKET_def)

lemma match_at_placeholder:
  assumes "ds \<noteq> []" and "\<forall>d\<in>set ds. is_digit d"
  shows "match_at (placeholder (ds @ key_suffix) @ rest) = Some (ds @ key_suffix, rest)"
proof -
  have tw: "takeWhile is_digit (ds @ key_suffix @ RBRACKET # rest) = ds"
    using assms(2) by (simp add: takeWhile_append2 key_suffix_no_digit)
  have dw: "dropWhile is_digit (ds @ key_suffix @ RBRACKET # rest) = key_suffix @ RBRACKET # rest"
    using assms(2) key_suffix_no_digit [of "RBRACKET # rest"]
    by (simp add: dropWhile_append2 takeWhile_eq_Nil_iff dropWhile_eq_self_iff)
  show ?thesis using assms(1) by (simp add: placeholder_def tw dw)
qed

lemma match_at_SomeD:
  assumes "match_at s = Some (key, rest)"
  shows "\<exists>ds. ds \<noteq> [] \<and> (\<forall>d\<in>set ds. is_digit d) \<and> key = ds @ key_suffix
              \<and> s = placeholder key @ rest"
proof (cases s)
  case Nil
  with assms show ?thesis by simp
next
  case (Cons c r)
  let ?ds = "takeWhile is_digit r" and ?t = "dropWhile is_digit r"
  from assms Cons have c: "c = LBRACKET" and ne: "?ds \<noteq> []"
    and tk: "take 7 ?t = key_suffix @ [RBRACKET]"
    and key: "key = ?ds @ key_suffix" and rest: "rest = drop 7 ?t"
    by (simp_all split: if_splits)
  have "?t = take 7 ?t @ drop 7 ?t" by simp
  with tk rest have "?t = key_suffix @ [RBRACKET] @ rest" by simp
  moreover have "r = ?ds @ ?t" by simp
  ultimately have "r = ?ds @ key_suffix @ [RBRACKET] @ rest" by simp
  with c Cons key have "s = placeholder key @ rest" by (simp add: placeholder_def)
  moreover have "\<forall>d\<in>set ?ds. is_digit d" by (auto dest: set_takeWhileD)
  ultimately show ?thesis using ne key by blast
qed

lemma match_at_append:
  assumes "match_at s = Some (key, rest)"
  shows "match_at (s @ t) = Some (key, rest @ t)"
proof -
  from match_at_SomeD [OF assms] obtain ds where
    "ds \<noteq> []" "\<forall>d\<in>set ds. is_digit d" "key = ds @ key_suffix" "s = placeholder key @ rest"
    by blast
  then show ?thesis using match_at_placeholder [of ds "rest @ t"] by simp
qed


lemma tail_char_placeholder:
  assumes "\<forall>d\<in>set ds. is_digit d"
  shows "\<forall>t\<in>set (ds @ key_suffix @ [RBRACKET]). tail_char t"
  using assms by (auto simp: tail_char_def)

lemma match_at_None_append:
  assumes none: "match_at a = None" and a: "a \<noteq> []" and c: "\<not> tail_char c"
  shows "match_at (a @ c # b) = None"
proof (rule ccontr)
  assume "match_at (a @ c # b) \<noteq> None"
  then obtain key rest where m: "match_at (a @ c # b) = Some (key, rest)" by auto
  from match_at_SomeD [OF m] obtain ds where ds: "ds \<noteq> []" "\<forall>d\<in>set ds. is_digit d"
    and key: "key = ds @ key_suffix" and eq: "a @ c # b = placeholder key @ rest"
    by blast
  from eq obtain us where
    "(a = placeholder key @ us \<and> us @ c # b = rest) \<or> (a @ us = placeholder key \<and> c # b = us @ rest)"
    by (auto simp: append_eq_append_conv2)
  then show False
  proof
    assume "a = placeholder key @ us \<and> us @ c # b = rest"
    then have "match_at a = Some (key, us)"
      using match_at_placeholder [OF ds, of us] key by simp
    with none show False by simp
  next
    assume h: "a @ us = placeholder key \<and> c # b = us @ rest"
    show False
    proof (cases us)
      case Nil
      with h have "match_at a = Some (key, [])"
        using match_at_placeholder [OF ds, of "[]"] key by simp
      with none show False by simp
    next
      case (Cons u us')
      with h have cu: "u = c" and p: "a @ c # us' = placeholder key" by simp_all
      from a obtain a0 a' where "a = a0 # a'" by (cases a) auto
      with p key have "a' @ c # us' = ds @ key_suffix @ [RBRACKET]"
        by (simp add: placeholder_def)
      then have "c \<in> set (ds @ key_suffix @ [RBRACKET])"
        by (metis in_set_conv_decomp)
      with tail_char_placeholder [OF ds(2)] c show False by blast
    qed
  qed
qed

lemma replace_chart_boundary:
  assumes "\<not> tail_char c"
  shows "replace_chart cb (a @ c # b) = replace_chart cb a @ replace_chart cb (c # b)"
proof (induction cb a rule: replace_chart.induct)
  case (1 cb)
  show ?case by simp
next
  case (2 cb x r)
  show ?case
  proof (cases "match_at (x # r)")
    case None
    then have "match_at ((x # r) @ c # b) = None"
      using assms by (intro match_at_None_append) simp_all
    with None 2(1) show ?thesis by (simp del: match_at.simps)
  next
    case (Some kr)
    obtain key rest where kr: "kr = (key, rest)" by (cases kr)
    with Some have "match_at ((x # r) @ c # b) = Some (key, rest @ c # b)"
      by (intro match_at_append) simp
    with Some kr 2(2) show ?thesis by (simp del: match_at.simps)
  qed
qed

lemma replace_chart_no_placeholder:
  "\<not> has_placeholder f \<Longrightarrow> replace_chart cb f = f"
  by (induction f) (auto simp del: match_at.simps split: option.splits)

lemma replace_chart_placeholder:
  assumes "ds \<noteq> []" and "\<forall>d\<in>set ds. is_digit d"
  shows "replace_chart cb (placeholder (ds @ key_suffix) @ rest)
         = cb (placeholder (ds @ key_suffix)) (ds @ key_suffix) @ replace_chart cb rest"
proof -
  have "placeholder (ds @ key_suffix) @ rest = LBRACKET # (ds @ key_suffix @ RBRACKET # rest)"
    by (simp add: placeholder_def)
  moreover have "match_at (LBRACKET # (ds @ key_suffix @ RBRACKET # rest)) = Some (ds @ key_suffix, rest)"
    using match_at_placeholder [OF assms, of rest] by (simp add: placeholder_def)
  ultimately show ?thesis by (simp del: match_at.simps)
qed

lemma replace_chart_NEWLINE: "replace_chart cb (NEWLINE # r) = NEWLINE # replace_chart cb r"
  by (simp add: NEWLINE_not_LBRACKET)

lemma chart_callback_cases:
  "chart_callback table (placeholder key) key = placeholder key
   \<or> chart_callback table (placeholder key) key
       = NEWLINE # NEWLINE # to_string (get_prop table key) @ [NEWLINE, NEWLINE]
     \<and> truthy (get_prop table key)"
  by (simp add: chart_callback_def Let_def)

lemma replace_chart_tail_head:
  assumes "replace_chart (chart_callback table) r = t # y" and "tail_char t"
  shows "\<exists>r'. r = t # r' \<and> replace_chart (chart_callback table) r' = y"
proof (cases r)
  case Nil
  with assms show ?thesis by simp
next
  case (Cons c r0)
  show ?thesis
  proof (cases "match_at (c # r0)")
    case None
    with assms Cons show ?thesis by (simp del: match_at.simps)
  next
    case (Some kr)
    obtain key rest where kr: "kr = (key, rest)" by (cases kr)
    from chart_callback_cases [of table key]
    have "hd (chart_callback table (placeholder key) key) = LBRACKET
          \<or> hd (chart_callback table (placeholder key) key) = NEWLINE"
      by (auto simp: placeholder_def)
    moreover have "chart_callback table (placeholder key) key \<noteq> []"
      using chart_callback_cases [of table key] by (auto simp: placeholder_def)
    ultimately have "t = LBRACKET \<or> t = NEWLINE"
      using assms(1) Cons Some kr
      by (cases "chart_callback table (placeholder key) key") (auto simp del: match_at.simps)
    with assms(2) not_tail_LBRACKET not_tail_NEWLINE show ?thesis by auto
  qed
qed

lemma replace_chart_tail_prefix:
  assumes "replace_chart (chart_callback table) r = x @ y" and "\<forall>t\<in>set x. tail_char t"
  shows "\<exists>r'. r = x @ r'"
  using assms
proof (induction x arbitrary: r)
  case Nil
  then show ?case by simp
next
  case (Cons t x)
  from Cons.prems have "replace_chart (chart_callback table) r = t # (x @ y)" "tail_char t"
    by simp_all
  from replace_chart_tail_head [OF this] obtain r0 where
    r: "r = t # r0" and "replace_chart (chart_callback table) r0 = x @ y" by blast
  with Cons.IH [of r0] Cons.prems(2) obtain r' where "r0 = x @ r'" by auto
  with r show ?case by simp
qed

lemma replace_chart_idem:
  assumes frag: "\<forall>key. truthy (get_prop table key) \<longrightarrow> \<not> has_placeholder (to_string (get_prop table key))"
  shows "replace_chart (chart_callback table) (replace_chart (chart_callback table) s)
         = replace_chart (chart_callback table) s"
proof (induction "chart_callback table" s rule: replace_chart.induct)
  case 1
  show ?case by simp
next
  case (2 c r)
  let ?R = "replace_chart (chart_callback table)"
  show ?case
  proof (cases "match_at (c # r)")
    case None
    have "match_at (c # ?R r) = None"
    proof (rule ccontr)
      assume "match_at (c # ?R r) \<noteq> None"
      then obtain key rest where m: "match_at (c # ?R r) = Some (key, rest)" by auto
      from match_at_SomeD [OF m] obtain ds where ds: "ds \<noteq> []" "\<forall>d\<in>set ds. is_digit d"
        and key: "key = ds @ key_suffix" and eq: "c # ?R r = placeholder key @ rest"
        by blast
      from eq key have c: "c = LBRACKET" and out: "?R r = (ds @ key_suffix @ [RBRACKET]) @ rest"
        by (simp_all add: placeholder_def)
      from replace_chart_tail_prefix [OF out tail_char_placeholder [OF ds(2)]]
      obtain r' where "r = (ds @ key_suffix @ [RBRACKET]) @ r'" by blast
      with c have "c # r = placeholder (ds @ key_suffix) @ r'" by (simp add: placeholder_def)
      with match_at_placeholder [OF ds, of r'] None show False by simp
    qed
    with None 2(1) show ?thesis by (simp del: match_at.simps)
  next
    case (Some kr)
    obtain key rest where kr: "kr = (key, rest)" by (cases kr)
    from Some kr have m: "match_at (c # r) = Some (key, rest)" by simp
    from 2(2) [OF Some kr [symmetric]] have IH: "?R (?R rest) = ?R rest" .
    from match_at_SomeD [OF m] obtain ds where ds: "ds \<noteq> []" "\<forall>d\<in>set ds. is_digit d"
      and key: "key = ds @ key_suffix" by blast
    have out: "?R (c # r) = chart_callback table (placeholder key) key @ ?R rest"
      using m by (simp del: match_at.simps)
    from chart_callback_cases [of table key] show ?thesis
    proof
      assume v: "chart_callback table (placeholder key) key = placeholder key"
      then show ?thesis
        using out IH replace_chart_placeholder [OF ds, of "chart_callback table" "?R rest"] key
        by simp
    next
      assume w: "chart_callback table (placeholder key) key
                   = NEWLINE # NEWLINE # to_string (get_prop table key) @ [NEWLINE, NEWLINE]
                 \<and> truthy (get_prop table key)"
      let ?f = "to_string (get_prop table key)"
      from w frag have nf: "\<not> has_placeholder ?f" by blast
      have "?R (?f @ NEWLINE # NEWLINE # ?R rest) = ?R ?f @ ?R (NEWLINE # NEWLINE # ?R rest)"
        by (rule replace_chart_boundary [OF not_tail_NEWLINE])
      also have "\<dots> = ?f @ NEWLINE # NEWLINE # ?R rest"
        using nf IH by (simp add: replace_chart_no_placeholder replace_chart_NEWLINE del: replace_chart.simps)
      finally have "?R (NEWLINE # NEWLINE # ?f @ NEWLINE # NEWLINE # ?R rest)
                    = NEWLINE # NEWLINE # ?f @ NEWLINE # NEWLINE # ?R rest"
        by (simp add: replace_chart_NEWLINE del: replace_chart.simps)
      with w out show ?thesis by (simp del: replace_chart.simps)
    qed
  qed
qed



subsection \<open>Substitution\<close>

lemma processContent_placeholder:
  assumes "truthy (get_prop ts (utf16 ''id_to_iframe''))" and "ds \<noteq> []" and "\<forall>d\<in>set ds. is_digit d"
  shows "processContent ts (a @ placeholder (ds @ key_suffix) @ b)
         = processContent ts a
           @ chart_callback (get_prop ts (utf16 ''id_to_iframe'')) (placeholder (ds @ key_suffix)) (ds @ key_suffix)
           @ processContent ts b"
proof -
  let ?cb = "chart_callback (get_prop ts (utf16 ''id_to_iframe''))"
  have "replace_chart ?cb (a @ LBRACKET # (ds @ key_suffix @ RBRACKET # b))
        = replace_chart ?cb a @ replace_chart ?cb (LBRACKET # (ds @ key_suffix @ RBRACKET # b))"
    by (rule replace_chart_boundary [OF not_tail_LBRACKET])
  moreover have "LBRACKET # (ds @ key_suffix @ RBRACKET # b) = placeholder (ds @ key_suffix) @ b"
    by (simp add: placeholder_def)
  ultimately have "replace_chart ?cb (a @ placeholder (ds @ key_suffix) @ b)
        = replace_chart ?cb a @ replace_chart ?cb (placeholder (ds @ key_suffix) @ b)"
    by simp
  with replace_chart_placeholder [OF assms(2,3), of ?cb b] assms(1)
  show ?thesis by (simp add: processContent_def)
qed

text \<open>
  C3 (as the code has it). Without a truthy \<open>id_to_iframe\<close> table the text is returned
  as it is, and so is a text without placeholder. A placeholder anywhere in a text is
  replaced on its own, whatever surrounds it: by its fragment between two newlines on
  either side when the table holds a truthy value under the key, and by itself when the
  key is absent or its value is falsy (the empty string). The function is a HOL
  function of its two arguments, so it cannot change them.
\<close>

theorem processContent_substitution:
  "(\<not> truthy (get_prop ts (utf16 ''id_to_iframe'')) \<longrightarrow> processContent ts s = s)
   \<and> (\<not> has_placeholder s \<longrightarrow> processContent ts s = s)
   \<and> (truthy (get_prop ts (utf16 ''id_to_iframe'')) \<and> ds \<noteq> [] \<and> (\<forall>d\<in>set ds. is_digit d) \<longrightarrow>
        processContent ts (a @ placeholder (ds @ key_suffix) @ b)
        = processContent ts a
          @ (if truthy (get_prop (get_prop ts (utf16 ''id_to_iframe'')) (ds @ key_suffix))
             then [NEWLINE, NEWLINE]
                  @ to_string (get_prop (get_prop ts (utf16 ''id_to_iframe'')) (ds @ key_suffix))
                  @ [NEWLINE, NEWLINE]
             else placeholder (ds @ key_suffix))
          @ processContent ts b)"
proof (intro conjI impI)
  assume "\<not> truthy (get_prop ts (utf16 ''id_to_iframe''))"
  then show "processContent ts s = s" by (simp add: processContent_def)
next
  assume "\<not> has_placeholder s"
  then show "processContent ts s = s"
    by (simp add: processContent_def replace_chart_no_placeholder)
next
  assume "truthy (get_prop ts (utf16 ''id_to_iframe'')) \<and> ds \<noteq> [] \<and> (\<forall>d\<in>set ds. is_digit d)"
  then show "processContent ts (a @ placeholder (ds @ key_suffix) @ b)
        = processContent ts a
          @ (if truthy (get_prop (get_prop ts (utf16 ''id_to_iframe'')) (ds @ key_suffix))
             then [NEWLINE, NEWLINE]
                  @ to_string (get_prop (get_prop ts (utf16 ''id_to_iframe'')) (ds @ key_suffix))
                  @ [NEWLINE, NEWLINE]
             else placeholder (ds @ key_suffix))
          @ processContent ts b"
    using processContent_placeholder [of ts ds a b] by (simp add: chart_callback_def Let_def)
qed

theorem processContent_substitution_witness:
  "truthy (get_prop
            (JObj [(utf16 ''id_to_iframe'',
                    JObj [(utf16 ''1'' @ key_suffix, JStr (utf16 ''<iframe/>'')),
                          (utf16 ''2'' @ key_suffix, JStr [])])])
            (utf16 ''id_to_iframe''))
   \<and> utf16 ''1'' \<noteq> [] \<and> list_all is_digit (utf16 ''1'')
   \<and> processContent
       (JObj [(utf16 ''id_to_iframe'',
               JObj [(utf16 ''1'' @ key_suffix, JStr (utf16 ''<iframe/>'')),
                     (utf16 ''2'' @ key_suffix, JStr [])])])
       (utf16 ''see '' @ placeholder (utf16 ''1'' @ key_suffix)
          @ utf16 '' and '' @ placeholder (utf16 ''2'' @ key_suffix))
     = utf16 ''see '' @ [NEWLINE, NEWLINE] @ utf16 ''<iframe/>'' @ [NEWLINE, NEWLINE]
       @ utf16 '' and '' @ placeholder (utf16 ''2'' @ key_suffix)"
proof -
  let ?ts = "JObj [(utf16 ''id_to_iframe'',
                    JObj [(utf16 ''1'' @ key_suffix, JStr (utf16 ''<iframe/>'')),
                          (utf16 ''2'' @ key_suffix, JStr [])])]"
  let ?b = "utf16 '' and '' @ placeholder (utf16 ''2'' @ key_suffix)"
  have h1: "truthy (get_prop ?ts (utf16 ''id_to_iframe''))" by code_simp
  have h2: "utf16 ''1'' \<noteq> []" by code_simp
  have h3: "\<forall>d\<in>set (utf16 ''1''). is_digit d" by code_simp
  have v: "truthy (get_prop (get_prop ?ts (utf16 ''id_to_iframe'')) (utf16 ''1'' @ key_suffix))"
    by code_simp
  have f: "to_string (get_prop (get_prop ?ts (utf16 ''id_to_iframe'')) (utf16 ''1'' @ key_suffix))
           = utf16 ''<iframe/>''"
    by code_simp
  have a: "processContent ?ts (utf16 ''see '') = utf16 ''see ''" by code_simp
  have b: "processContent ?ts ?b = ?b" by code_simp
  have "processContent ?ts (utf16 ''see '' @ placeholder (utf16 ''1'' @ key_suffix) @ ?b)
        = utf16 ''see '' @ [NEWLINE, NEWLINE] @ utf16 ''<iframe/>'' @ [NEWLINE, NEWLINE] @ ?b"
    using processContent_substitution
      [where ts = "?ts" and ds = "utf16 ''1''" and a = "utf16 ''see ''" and b = "?b",
        THEN conjunct2, THEN conjunct2] h1 h2 h3 v
    by (simp only: f a b) simp
  with h1 h2 h3 show ?thesis by (simp add: list_all_iff)
qed

text \<open>
  C3 (as the specification words it) fails: with a fragment under the first key and the
  empty fragment under the second, the code puts newlines around the first fragment and
  keeps the second placeholder, where the specification's substitution yields the bare
  first fragment and drops the second placeholder.
\<close>

theorem processContent_not_plain_substitution:
  "processContent
     (JObj [(utf16 ''id_to_iframe'',
             JObj [(utf16 ''1'' @ key_suffix, JStr (utf16 ''<iframe/>'')),
                   (utf16 ''2'' @ key_suffix, JStr [])])])
     (placeholder (utf16 ''1'' @ key_suffix) @ placeholder (utf16 ''2'' @ key_suffix))
   \<noteq> spec_transform
       (fragments
         (JObj [(utf16 ''id_to_iframe'',
             JObj [(utf16 ''1'' @ key_suffix, JStr (utf16 ''<iframe/>'')),
                   (utf16 ''2'' @ key_suffix, JStr [])])]))
       (placeholder (utf16 ''1'' @ key_suffix) @ placeholder (utf16 ''2'' @ key_suffix))"
  by code_simp


subsection \<open>Idempotence\<close>

text \<open>
  C4. When no fragment of the table contains a placeholder, transforming the output
  again changes nothing. And the transformer is a single pass: a substituted fragment
  enters the output as it is, also when it contains placeholders, and scanning goes on
  behind the placeholder it replaced.
\<close>

theorem processContent_idempotent:
  "((\<forall>key. truthy (get_prop (get_prop ts (utf16 ''id_to_iframe'')) key) \<longrightarrow>
           \<not> has_placeholder (to_string (get_prop (get_prop ts (utf16 ''id_to_iframe'')) key)))
     \<longrightarrow> processContent ts (processContent ts s) = processContent ts s)
   \<and> (truthy (get_prop ts (utf16 ''id_to_iframe'')) \<and> ds \<noteq> [] \<and> (\<forall>d\<in>set ds. is_digit d)
        \<and> truthy (get_prop (get_prop ts (utf16 ''id_to_iframe'')) (ds @ key_suffix))
     \<longrightarrow> processContent ts (placeholder (ds @ key_suffix) @ rest)
         = [NEWLINE, NEWLINE]
           @ to_string (get_prop (get_prop ts (utf16 ''id_to_iframe'')) (ds @ key_suffix))
           @ [NEWLINE, NEWLINE] @ processContent ts rest)"
proof (intro conjI impI)
  assume "\<forall>key. truthy (get_prop (get_prop ts (utf16 ''id_to_iframe'')) key) \<longrightarrow>
           \<not> has_placeholder (to_string (get_prop (get_prop ts (utf16 ''id_to_iframe'')) key))"
  then show "processContent ts (processContent ts s) = processContent ts s"
    by (simp add: processContent_def replace_chart_idem)
next
  assume h: "truthy (get_prop ts (utf16 ''id_to_iframe'')) \<and> ds \<noteq> [] \<and> (\<forall>d\<in>set ds. is_digit d)
        \<and> truthy (get_prop (get_prop ts (utf16 ''id_to_iframe'')) (ds @ key_suffix))"
  then have "replace_chart (chart_callback (get_prop ts (utf16 ''id_to_iframe'')))
               (placeholder (ds @ key_suffix) @ rest)
             = chart_callback (get_prop ts (utf16 ''id_to_iframe''))
                 (placeholder (ds @ key_suffix)) (ds @ key_suffix)
               @ replace_chart (chart_callback (get_prop ts (utf16 ''id_to_iframe''))) rest"
    by (intro replace_chart_placeholder) simp_all
  with h show "processContent ts (placeholder (ds @ key_suffix) @ rest)
         = [NEWLINE, NEWLINE]
           @ to_string (get_prop (get_prop ts (utf16 ''id_to_iframe'')) (ds @ key_suffix))
           @ [NEWLINE, NEWLINE] @ processContent ts rest"
    by (simp add: processContent_def chart_callback_def Let_def)
qed

theorem processContent_idempotent_witness:
  "\<not> has_placeholder (utf16 ''<iframe/>'')
   \<and> processContent
       (JObj [(utf16 ''id_to_iframe'', JObj [(utf16 ''1'' @ key_suffix, JStr (utf16 ''<iframe/>''))])])
       (processContent
         (JObj [(utf16 ''id_to_iframe'', JObj [(utf16 ''1'' @ key_suffix, JStr (utf16 ''<iframe/>''))])])
         (placeholder (utf16 ''1'' @ key_suffix) @ placeholder (utf16 ''2'' @ key_suffix)))
     = [NEWLINE, NEWLINE] @ utf16 ''<iframe/>'' @ [NEWLINE, NEWLINE] @ placeholder (utf16 ''2'' @ key_suffix)
   \<and> processContent
       (JObj [(utf16 ''id_to_iframe'',
               JObj [(utf16 ''1'' @ key_suffix, JStr (placeholder (utf16 ''2'' @ key_suffix))),
                     (utf16 ''2'' @ key_suffix, JStr (utf16 ''<iframe/>''))])])
       (placeholder (utf16 ''1'' @ key_suffix) @ [])
     = [NEWLINE, NEWLINE] @ placeholder (utf16 ''2'' @ key_suffix) @ [NEWLINE, NEWLINE]"
proof -
  let ?table = "JObj [(utf16 ''1'' @ key_suffix, JStr (utf16 ''<iframe/>''))]"
  let ?ts = "JObj [(utf16 ''id_to_iframe'', ?table)]"
  let ?text = "placeholder (utf16 ''1'' @ key_suffix) @ placeholder (utf16 ''2'' @ key_suffix)"
  let ?nested = "JObj [(utf16 ''id_to_iframe'',
               JObj [(utf16 ''1'' @ key_suffix, JStr (placeholder (utf16 ''2'' @ key_suffix))),
                     (utf16 ''2'' @ key_suffix, JStr (utf16 ''<iframe/>''))])]"
  have np: "\<not> has_placeholder (utf16 ''<iframe/>'')" by code_simp
  have hyp: "\<forall>key. truthy (get_prop ?table key) \<longrightarrow> \<not> has_placeholder (to_string (get_prop ?table key))"
    using np by simp
  have tbl: "get_prop ?ts (utf16 ''id_to_iframe'') = ?table" by code_simp
  have once: "processContent ?ts ?text
     = [NEWLINE, NEWLINE] @ utf16 ''<iframe/>'' @ [NEWLINE, NEWLINE] @ placeholder (utf16 ''2'' @ key_suffix)"
    by code_simp
  have twice: "processContent ?ts (processContent ?ts ?text) = processContent ?ts ?text"
    using processContent_idempotent [where ts = "?ts" and s = "?text", THEN conjunct1] hyp
    by (simp only: tbl)
  have e1: "truthy (get_prop ?nested (utf16 ''id_to_iframe''))" by code_simp
  have e2: "\<forall>d\<in>set (utf16 ''1''). is_digit d" by code_simp
  have e3: "truthy (get_prop (get_prop ?nested (utf16 ''id_to_iframe'')) (utf16 ''1'' @ key_suffix))"
    by code_simp
  have e4: "to_string (get_prop (get_prop ?nested (utf16 ''id_to_iframe'')) (utf16 ''1'' @ key_suffix))
            = placeholder (utf16 ''2'' @ key_suffix)" by code_simp
  have e5: "processContent ?nested [] = []" by code_simp
  have e6: "utf16 ''1'' \<noteq> []" by code_simp
  have single: "processContent ?nested (placeholder (utf16 ''1'' @ key_suffix) @ [])
     = [NEWLINE, NEWLINE] @ placeholder (utf16 ''2'' @ key_suffix) @ [NEWLINE, NEWLINE]"
    using processContent_idempotent [where ts = "?nested" and ds = "utf16 ''1''" and rest = "[]",
        THEN conjunct2] e1 e2 e3 e6
    by (simp only: e4 e5) simp
  show ?thesis using np once twice single by simp
qed



section \<open>Properties of the Client Session Controller\<close>

text \<open>
  The model applies every state update at the place of its call. React runs the updater
  functions later, in the order of the calls, and the updaters of the token branch read
  the variable \<open>accumulatedText\<close> when they run; the states agree whenever no update is
  pending, which is where the properties below look at them.
\<close>

subsection \<open>One event\<close>

lemma concat_code_points: "concat (code_points s) = s"
  by (induction s rule: code_points.induct) simp_all

lemma code_points_Nil: "code_points s = [] \<longleftrightarrow> s = []"
  by (induction s rule: code_points.induct) simp_all

lemma set_text_twice: "set_text aid t (set_text aid t' ms) = set_text aid t ms"
  by (simp add: set_text_def)

lemma token_loop_eq:
  "token_loop aid (st, acc) chars =
     (if chars = [] then (st, acc)
      else (st\<lparr>messages := set_text aid (acc @ concat chars) (messages st)\<rparr>, acc @ concat chars))"
  by (induction chars arbitrary: st acc) (simp_all add: set_text_twice)

lemma on_event_token:
  assumes "event ev = utf16 ''token''"
  shows "on_event S rq (st, acc) ev tk =
     (if string_or (data ev) [] = [] then ((st, acc), Continue)
      else ((st\<lparr>messages := set_text (aiMessageId rq) (acc @ string_or (data ev) []) (messages st)\<rparr>,
             acc @ string_or (data ev) []), Continue))"
  using assms by (simp add: on_event_def token_loop_eq code_points_Nil concat_code_points)

lemma on_event_reasoning:
  assumes "event ev = utf16 ''reasoning''"
  shows "on_event S rq (st, acc) ev tk =
     ((st\<lparr>messages := add_step (aiMessageId rq)
                           (reasoning_step S (aiMessageId rq) (data ev) tk) (messages st)\<rparr>,
       acc), Continue)"
  using assms by (simp add: on_event_def Let_def utf16_def)

lemma on_event_tool_state:
  assumes "event ev = utf16 ''tool_state''"
  shows "on_event S rq (st, acc) ev tk =
     (if truthy (data ev) \<and> typeof (data ev) = TObject
      then ((st\<lparr>toolState := data ev\<rparr>, acc), Continue) else ((st, acc), Continue))"
  using assms by (simp add: on_event_def Let_def utf16_def)

lemma on_event_metadata:
  assumes "event ev = utf16 ''metadata''"
  shows "on_event S rq (st, acc) ev tk = ((st, acc), Continue)"
  using assms by (simp add: on_event_def Let_def utf16_def)

lemma on_event_error:
  assumes "event ev = utf16 ''error''"
  shows "on_event S rq (st, acc) ev tk =
     ((st\<lparr>messages :=
            clear_thinking (aiMessageId rq)
              (set_text (aiMessageId rq)
                 (ERROR_PREFIX @ to_string (if truthy (data ev) then data ev else JStr UNKNOWN_ERROR))
                 (messages st)),
          toasts := toasts st @
            [\<lparr>toast_title = ERROR_TITLE,
              description = (if truthy (data ev) then data ev else JStr UNKNOWN_ERROR),
              variant = destructive\<rparr>]\<rparr>,
       acc), Break)"
  using assms by (simp add: on_event_def Let_def utf16_def)

lemma on_event_result:
  assumes "event ev = utf16 ''result''"
  shows "on_event S rq (st, acc) ev tk =
     ((st\<lparr>conversations :=
            touch_conversation (chatId rq) (take 80 acc) (date tk) (conversations st),
          messages := clear_thinking (aiMessageId rq) (messages st)\<rparr>,
       acc), Break)"
  using assms by (simp add: on_event_def Let_def utf16_def)

lemma on_event_other:
  assumes "event ev \<noteq> utf16 ''token''" "event ev \<noteq> utf16 ''reasoning''"
    "event ev \<noteq> utf16 ''tool_state''" "event ev \<noteq> utf16 ''metadata''"
    "event ev \<noteq> utf16 ''error''" "event ev \<noteq> utf16 ''result''"
  shows "on_event S rq (st, acc) ev tk = ((st, acc), Continue)"
  using assms by (simp add: on_event_def Let_def)

lemma result_not_others:
  "utf16 ''token'' \<noteq> utf16 ''result''" "utf16 ''reasoning'' \<noteq> utf16 ''result''"
  "utf16 ''tool_state'' \<noteq> utf16 ''result''" "utf16 ''metadata'' \<noteq> utf16 ''result''"
  "utf16 ''error'' \<noteq> utf16 ''result''"
  by (simp_all add: utf16_def)


lemma set_text_frame:
  "length (set_text aid t ms) = length ms"
  "i < length ms \<Longrightarrow> msg_id (set_text aid t ms ! i) = msg_id (ms ! i)"
  "i < length ms \<Longrightarrow> msg_id (ms ! i) \<noteq> aid \<Longrightarrow> set_text aid t ms ! i = ms ! i"
  by (simp_all add: set_text_def)

lemma clear_thinking_frame:
  "length (clear_thinking aid ms) = length ms"
  "i < length ms \<Longrightarrow> msg_id (clear_thinking aid ms ! i) = msg_id (ms ! i)"
  "i < length ms \<Longrightarrow> msg_id (ms ! i) \<noteq> aid \<Longrightarrow> clear_thinking aid ms ! i = ms ! i"
  by (simp_all add: clear_thinking_def)

lemma add_step_frame:
  "length (add_step aid step ms) = length ms"
  "i < length ms \<Longrightarrow> msg_id (add_step aid step ms ! i) = msg_id (ms ! i)"
  "i < length ms \<Longrightarrow> msg_id (ms ! i) \<noteq> aid \<Longrightarrow> add_step aid step ms ! i = ms ! i"
  by (simp_all add: add_step_def)

lemma touch_conversation_frame:
  "length (touch_conversation cid p t cs) = length cs"
  "i < length cs \<Longrightarrow> conv_id (cs ! i) \<noteq> cid \<Longrightarrow> touch_conversation cid p t cs ! i = cs ! i"
  by (simp_all add: touch_conversation_def)

lemmas frames = set_text_frame clear_thinking_frame add_step_frame touch_conversation_frame

text \<open>
  C1 (as the code has it). A \<open>tool_state\<close> event whose payload is truthy and of type
  object replaces the tool state of the page by the payload: afterwards the tool state
  holds exactly the keys of the payload, with the payload's values. Any other payload
  leaves the tool state as it was. Nothing else changes and the loop goes on. The page has
  one tool state, whatever the conversation.
\<close>

theorem on_event_replaces_toolState:
  assumes "event ev = utf16 ''tool_state''"
  shows "on_event S rq (st, acc) ev tk =
           ((st\<lparr>toolState := (if truthy (data ev) \<and> typeof (data ev) = TObject
                               then data ev else toolState st)\<rparr>, acc), Continue)"
  using assms by (simp add: on_event_tool_state)

theorem on_event_replaces_toolState_witness:
  "on_event ex_stringify ex_request (ex_state, utf16 ''Hel'')
     \<lparr>event = utf16 ''tool_state'', data = JObj [(utf16 ''da'', JStr (utf16 ''x''))]\<rparr> ex_tick
   = ((ex_state\<lparr>toolState := JObj [(utf16 ''da'', JStr (utf16 ''x''))]\<rparr>, utf16 ''Hel''), Continue)"
  using on_event_replaces_toolState
    [where ev = "\<lparr>event = utf16 ''tool_state'', data = JObj [(utf16 ''da'', JStr (utf16 ''x''))]\<rparr>"
       and S = ex_stringify and rq = ex_request and st = ex_state and acc = "utf16 ''Hel''"
       and tk = ex_tick]
  by simp

text \<open>
  C1 (as the specification words it) fails: the tool state holds a fragment under the
  key of chart 1, a \<open>tool_state\<close> event arrives whose payload has no \<open>id_to_iframe\<close>
  entry, and afterwards the fragment is gone, where a key-wise merge keeps it.
\<close>

theorem tool_state_not_merged:
  "fragments
     (toolState (fst (fst (on_event ex_stringify ex_request (ex_state, utf16 ''Hel'')
        \<lparr>event = utf16 ''tool_state'', data = JObj [(utf16 ''da'', JStr (utf16 ''x''))]\<rparr> ex_tick))))
     (utf16 ''1'' @ key_suffix)
   \<noteq> (fragments (toolState ex_state) ++ fragments (JObj [(utf16 ''da'', JStr (utf16 ''x''))]))
       (utf16 ''1'' @ key_suffix)
   \<and> get_prop
       (toolState (fst (fst (on_event ex_stringify ex_request (ex_state, utf16 ''Hel'')
          \<lparr>event = utf16 ''tool_state'', data = JObj [(utf16 ''da'', JStr (utf16 ''x''))]\<rparr> ex_tick))))
       (utf16 ''id_to_iframe'')
     \<noteq> get_prop (toolState ex_state) (utf16 ''id_to_iframe'')"
  by code_simp

text \<open>
  C10. The handler of one event is a total function of the event, whatever its payload.
  An event whose name is none of the six known names changes nothing; a \<open>token\<close> event
  whose payload is not a string changes nothing, the accumulated text included; a
  \<open>tool_state\<close> event whose payload is not an object (or is \<open>null\<close>) changes nothing. In
  each case the loop goes on.
\<close>

theorem on_event_total:
  "(event ev \<noteq> utf16 ''token'' \<and> event ev \<noteq> utf16 ''reasoning''
      \<and> event ev \<noteq> utf16 ''tool_state'' \<and> event ev \<noteq> utf16 ''metadata''
      \<and> event ev \<noteq> utf16 ''error'' \<and> event ev \<noteq> utf16 ''result''
     \<longrightarrow> on_event S rq (st, acc) ev tk = ((st, acc), Continue))
   \<and> (event ev = utf16 ''token'' \<and> typeof (data ev) \<noteq> TString
     \<longrightarrow> on_event S rq (st, acc) ev tk = ((st, acc), Continue))
   \<and> (event ev = utf16 ''tool_state'' \<and> (typeof (data ev) \<noteq> TObject \<or> data ev = JNull)
     \<longrightarrow> on_event S rq (st, acc) ev tk = ((st, acc), Continue))"
proof (intro conjI impI)
  assume "event ev \<noteq> utf16 ''token'' \<and> event ev \<noteq> utf16 ''reasoning''
      \<and> event ev \<noteq> utf16 ''tool_state'' \<and> event ev \<noteq> utf16 ''metadata''
      \<and> event ev \<noteq> utf16 ''error'' \<and> event ev \<noteq> utf16 ''result''"
  then show "on_event S rq (st, acc) ev tk = ((st, acc), Continue)"
    by (simp add: on_event_other)
next
  assume "event ev = utf16 ''token'' \<and> typeof (data ev) \<noteq> TString"
  then show "on_event S rq (st, acc) ev tk = ((st, acc), Continue)"
    by (cases "data ev") (simp_all add: on_event_token string_or_def)
next
  assume "event ev = utf16 ''tool_state'' \<and> (typeof (data ev) \<noteq> TObject \<or> data ev = JNull)"
  then show "on_event S rq (st, acc) ev tk = ((st, acc), Continue)"
    by (auto simp: on_event_tool_state)
qed

theorem on_event_total_witness:
  "on_event ex_stringify ex_request (ex_state, utf16 ''Hel'')
     \<lparr>event = utf16 ''ping'', data = JStr (utf16 ''x'')\<rparr> ex_tick
   = ((ex_state, utf16 ''Hel''), Continue)
   \<and> on_event ex_stringify ex_request (ex_state, utf16 ''Hel'')
     \<lparr>event = utf16 ''token'', data = JNum 7\<rparr> ex_tick
   = ((ex_state, utf16 ''Hel''), Continue)
   \<and> on_event ex_stringify ex_request (ex_state, utf16 ''Hel'')
     \<lparr>event = utf16 ''tool_state'', data = JStr (utf16 ''x'')\<rparr> ex_tick
   = ((ex_state, utf16 ''Hel''), Continue)"
proof -
  have a: "on_event ex_stringify ex_request (ex_state, utf16 ''Hel'')
     \<lparr>event = utf16 ''ping'', data = JStr (utf16 ''x'')\<rparr> ex_tick
   = ((ex_state, utf16 ''Hel''), Continue)"
    using on_event_total [where ev = "\<lparr>event = utf16 ''ping'', data = JStr (utf16 ''x'')\<rparr>"
        and S = ex_stringify and rq = ex_request and st = ex_state and acc = "utf16 ''Hel''"
        and tk = ex_tick, THEN conjunct1]
    by (simp add: utf16_def)
  have b: "on_event ex_stringify ex_request (ex_state, utf16 ''Hel'')
     \<lparr>event = utf16 ''token'', data = JNum 7\<rparr> ex_tick
   = ((ex_state, utf16 ''Hel''), Continue)"
    using on_event_total [where ev = "\<lparr>event = utf16 ''token'', data = JNum 7\<rparr>"
        and S = ex_stringify and rq = ex_request and st = ex_state and acc = "utf16 ''Hel''"
        and tk = ex_tick, THEN conjunct2, THEN conjunct1]
    by simp
  have c: "on_event ex_stringify ex_request (ex_state, utf16 ''Hel'')
     \<lparr>event = utf16 ''tool_state'', data = JStr (utf16 ''x'')\<rparr> ex_tick
   = ((ex_state, utf16 ''Hel''), Continue)"
    using on_event_total [where ev = "\<lparr>event = utf16 ''tool_state'', data = JStr (utf16 ''x'')\<rparr>"
        and S = ex_stringify and rq = ex_request and st = ex_state and acc = "utf16 ''Hel''"
        and tk = ex_tick, THEN conjunct2, THEN conjunct2]
    by simp
  from a b c show ?thesis by simp
qed


text \<open>
  C9. Whatever the event, the handler keeps the length of the message list and the id of
  every message, and leaves every message whose id is not the id of the placeholder of
  this turn as it was. The conversation list keeps its length; its entries change only
  at a \<open>result\<close> event, and then only those of the chat of this turn.
\<close>

theorem on_event_frame:
  "length (messages (fst (fst (on_event S rq (st, acc) ev tk)))) = length (messages st)
   \<and> (\<forall>i < length (messages st).
        msg_id (messages (fst (fst (on_event S rq (st, acc) ev tk))) ! i) = msg_id (messages st ! i)
        \<and> (msg_id (messages st ! i) \<noteq> aiMessageId rq \<longrightarrow>
             messages (fst (fst (on_event S rq (st, acc) ev tk))) ! i = messages st ! i))
   \<and> length (conversations (fst (fst (on_event S rq (st, acc) ev tk)))) = length (conversations st)
   \<and> (\<forall>i < length (conversations st).
        conv_id (conversations st ! i) \<noteq> chatId rq \<or> event ev \<noteq> utf16 ''result'' \<longrightarrow>
        conversations (fst (fst (on_event S rq (st, acc) ev tk))) ! i = conversations st ! i)"
proof -
  consider (token) "event ev = utf16 ''token''" | (reasoning) "event ev = utf16 ''reasoning''"
    | (tool) "event ev = utf16 ''tool_state''" | (meta) "event ev = utf16 ''metadata''"
    | (error) "event ev = utf16 ''error''" | (result) "event ev = utf16 ''result''"
    | (other) "event ev \<noteq> utf16 ''token''" "event ev \<noteq> utf16 ''reasoning''"
        "event ev \<noteq> utf16 ''tool_state''" "event ev \<noteq> utf16 ''metadata''"
        "event ev \<noteq> utf16 ''error''" "event ev \<noteq> utf16 ''result''"
    by blast
  then show ?thesis
  proof cases
    case token
    then show ?thesis by (simp add: on_event_token frames result_not_others)
  next
    case reasoning
    then show ?thesis by (simp add: on_event_reasoning frames result_not_others)
  next
    case tool
    then show ?thesis by (simp add: on_event_tool_state)
  next
    case meta
    then show ?thesis by (simp add: on_event_metadata)
  next
    case error
    then show ?thesis by (simp add: on_event_error frames result_not_others)
  next
    case result
    then show ?thesis by (simp add: on_event_result frames)
  next
    case other
    then show ?thesis by (simp add: on_event_other)
  qed
qed

theorem on_event_frame_witness:
  "messages (fst (fst (on_event ex_stringify ex_request (ex_state, utf16 ''Hel'')
      \<lparr>event = utf16 ''token'', data = JStr (utf16 ''lo'')\<rparr> ex_tick))) ! 0
   = messages ex_state ! 0
   \<and> conversations (fst (fst (on_event ex_stringify ex_request (ex_state, utf16 ''Hel'')
      \<lparr>event = utf16 ''result'', data = JUndef\<rparr> ex_tick))) ! 1
   = conversations ex_state ! 1"
proof -
  have l: "0 < length (messages ex_state)" "1 < length (conversations ex_state)"
    by (simp_all add: ex_state_def)
  have m: "msg_id (messages ex_state ! 0) \<noteq> aiMessageId ex_request"
    by (simp add: ex_state_def ex_request_def utf16_def)
  have c: "conv_id (conversations ex_state ! 1) \<noteq> chatId ex_request"
    by (simp add: ex_state_def ex_request_def utf16_def)
  from on_event_frame [where S = ex_stringify and rq = ex_request and st = ex_state
      and acc = "utf16 ''Hel''" and tk = ex_tick
      and ev = "\<lparr>event = utf16 ''token'', data = JStr (utf16 ''lo'')\<rparr>"] l m
  have a: "messages (fst (fst (on_event ex_stringify ex_request (ex_state, utf16 ''Hel'')
      \<lparr>event = utf16 ''token'', data = JStr (utf16 ''lo'')\<rparr> ex_tick))) ! 0
   = messages ex_state ! 0"
    by blast
  from on_event_frame [where S = ex_stringify and rq = ex_request and st = ex_state
      and acc = "utf16 ''Hel''" and tk = ex_tick
      and ev = "\<lparr>event = utf16 ''result'', data = JUndef\<rparr>"] l c
  have b: "conversations (fst (fst (on_event ex_stringify ex_request (ex_state, utf16 ''Hel'')
      \<lparr>event = utf16 ''result'', data = JUndef\<rparr> ex_tick))) ! 1
   = conversations ex_state ! 1"
    by blast
  from a b show ?thesis by simp
qed

text \<open>
  C6. At an \<open>error\<close> event the loop stops: whatever the stream holds after the event is
  not read. Every message with the id of the placeholder gets the error text (the prefix
  and the payload, or the default text when the payload is falsy) and a cleared thinking
  flag, every other message stays as it is, and one destructive toast carrying the error
  is added.
\<close>

theorem for_await_error:
  assumes "event ev = utf16 ''error''"
  shows "for_await S rq (st, acc) (Yield ev tk # rest) =
     ((st\<lparr>messages :=
            map (\<lambda>msg. if msg_id msg = aiMessageId rq
                        then msg\<lparr>msg_text := ERROR_PREFIX @ to_string
                                    (if truthy (data ev) then data ev else JStr UNKNOWN_ERROR),
                                 isThinking := Some False\<rparr>
                        else msg) (messages st),
           toasts := toasts st @
             [\<lparr>toast_title = ERROR_TITLE,
               description = (if truthy (data ev) then data ev else JStr UNKNOWN_ERROR),
               variant = destructive\<rparr>]\<rparr>, acc), None)"
  using assms
  by (simp add: on_event_error clear_thinking_def set_text_def comp_def if_distrib cong: if_cong)


theorem for_await_error_witness:
  "messages (fst (fst (for_await ex_stringify ex_request (ex_state, utf16 ''Hel'')
      (Yield \<lparr>event = utf16 ''error'', data = JStr (utf16 ''boom'')\<rparr> ex_tick # ex_late))))
   = [\<lparr>msg_id = utf16 ''1000'', msg_text = utf16 ''hello'', isUser = True,
       msg_timestamp = 1000, reasoningSteps = None, isThinking = None\<rparr>,
      \<lparr>msg_id = utf16 ''1001'', msg_text = ERROR_PREFIX @ utf16 ''boom'', isUser = False,
       msg_timestamp = 1000, reasoningSteps = Some [], isThinking = Some False\<rparr>]
   \<and> snd (for_await ex_stringify ex_request (ex_state, utf16 ''Hel'')
      (Yield \<lparr>event = utf16 ''error'', data = JStr (utf16 ''boom'')\<rparr> ex_tick # ex_late)) = None"
proof -
  have h: "event \<lparr>event = utf16 ''error'', data = JStr (utf16 ''boom'')\<rparr> = utf16 ''error''"
    by simp
  have t: "truthy (JStr (utf16 ''boom''))" by (simp add: utf16_def)
  have ne: "utf16 ''1000'' \<noteq> utf16 ''1001''" by (simp add: utf16_def)
  from for_await_error [OF h, where S = ex_stringify and rq = ex_request and st = ex_state
      and acc = "utf16 ''Hel''" and tk = ex_tick and rest = ex_late]
  show ?thesis using t ne by (simp add: ex_state_def ex_request_def)
qed

subsection \<open>One turn\<close>







subsection \<open>What keeps the current conversation\<close>











text \<open>
  The conversation has to be current: a turn submitted without one makes its own chat,
  the history effect reads the history of that chat, and the list the read leaves has no
  placeholder.
\<close>

lemma send_turn_without_conversation:
  "messages
     (send_turn ex_stringify (\<lambda>i. 2000) (Response (Some [])) 1 (ex_clock 1000) initial_state
        (utf16 ''hello'')
        (ex_stream @ Yield \<lparr>event = utf16 ''result'', data = JUndef\<rparr> ex_tick # ex_late))
   = []"
  by code_simp


subsection \<open>Cancelling a turn\<close>






lemma clear_thinking_last:
  assumes "ms \<noteq> []" and "msg_id (last ms) = a"
  shows "msg_id (last (clear_thinking a ms)) = a"
    and "msg_text (last (clear_thinking a ms)) = msg_text (last ms)"
    and "isThinking (last (clear_thinking a ms)) = Some False"
  using assms by (simp_all add: clear_thinking_def last_map)






subsection \<open>Switching the conversation\<close>

text \<open>
  C5 (as the code has it). Selecting another conversation and loading its history makes
  it the current one and replaces the message list: by one entry per message of the
  window the server returned, or by the empty list when the response has no message array
  or the read fails. No entry of the new list has a reasoning step or is thinking. The
  tool state is what it was before the switch.
\<close>

theorem switch_conversation_loads:
  assumes "cid \<noteq> []" and "currentConversationId st \<noteq> Some cid"
  shows "toolState (switch_conversation clock outcome st cid) = toolState st
       \<and> currentConversationId (switch_conversation clock outcome st cid) = Some cid
       \<and> messages (switch_conversation clock outcome st cid)
           = (case outcome of
                Response (Some window) \<Rightarrow> map (loaded_message cid clock) (enumerate 0 window)
              | Response None \<Rightarrow> []
              | Rejected e \<Rightarrow> [])
       \<and> list_all (\<lambda>msg. reasoningSteps msg = Some [] \<and> isThinking msg = Some False)
            (messages (switch_conversation clock outcome st cid))"
  using assms
  by (auto simp: switch_conversation_def history_effect_def handleSelectConversation_def
      cancelOngoingStream_def loadChatHistory_def loaded_message_def list_all_iff
      split: option.splits history_outcome.splits)

theorem switch_conversation_loads_witness:
  "map msg_text (messages
     (switch_conversation (\<lambda>i. 2000)
        (Response (Some [\<lparr>role = utf16 ''user'', content = Some (utf16 ''earlier'')\<rparr>,
                         \<lparr>role = utf16 ''assistant'', content = None\<rparr>]))
        ex_state (utf16 ''old'')))
   = [utf16 ''earlier'', []]
   \<and> toolState
       (switch_conversation (\<lambda>i. 2000)
        (Response (Some [\<lparr>role = utf16 ''user'', content = Some (utf16 ''earlier'')\<rparr>,
                         \<lparr>role = utf16 ''assistant'', content = None\<rparr>]))
        ex_state (utf16 ''old''))
     = ex_table"
proof -
  have h1: "utf16 ''old'' \<noteq> []" by (simp add: utf16_def)
  have h2: "currentConversationId ex_state \<noteq> Some (utf16 ''old'')"
    by (simp add: ex_state_def utf16_def)
  have t: "toolState ex_state = ex_table" by (simp add: ex_state_def)
  from switch_conversation_loads [OF h1 h2, where clock = "\<lambda>i. 2000"
      and outcome = "Response (Some [\<lparr>role = utf16 ''user'', content = Some (utf16 ''earlier'')\<rparr>,
                         \<lparr>role = utf16 ''assistant'', content = None\<rparr>])"]
  show ?thesis by (simp add: t loaded_message_def enumerate_eq_zip)
qed

text \<open>
  C5 (as the specification words it) fails: the tool state holds a fragment for chart 1
  of the current conversation; after the switch to another conversation, whose history
  refers to a chart 1 of its own, the fragment of the previous conversation is still
  there.
\<close>

theorem switch_conversation_keeps_toolState:
  "fragments
     (toolState
       (switch_conversation (\<lambda>i. 2000)
          (Response (Some [\<lparr>role = utf16 ''assistant'',
                            content = Some (placeholder (utf16 ''1'' @ key_suffix))\<rparr>]))
          ex_state (utf16 ''old'')))
     (utf16 ''1'' @ key_suffix)
   = Some (utf16 ''<iframe/>'')"
  by code_simp

subsection \<open>Streams in flight\<close>




lemma in_flight_cong:
  "streams st' = streams st \<Longrightarrow> in_flight st' = in_flight st"
  by (simp add: in_flight_def)



lemma abort_length [simp]: "length (abort c ss) = length ss"
  by (simp add: abort_def)


lemma finish_length [simp]: "length (finish c ss) = length ss"
  by (simp add: finish_def)


















end
